theory Spec2Isabelle
  imports Main
begin

section \<open>The relay server of \<^verbatim>\<open>server.js\<close>\<close>

text \<open>
  The Socket.io relay keeps five module-level stores (\<^verbatim>\<open>activeConnections\<close>,
  \<^verbatim>\<open>groupRooms\<close>, \<^verbatim>\<open>userGroups\<close>, \<^verbatim>\<open>userStatus\<close>, \<^verbatim>\<open>friendRequests\<close>) and registers,
  for every connection, one handler per event kind; each handler closes over the
  connection's \<^verbatim>\<open>socket\<close> and \<^verbatim>\<open>userId\<close>. The stores \<^verbatim>\<open>users\<close> and
  \<^verbatim>\<open>anonymousConnections\<close> are declared but never read or written and are left out.
  Handlers are modelled as functions from the store to the new store and the list of
  Socket.io calls they make, or to the exception that escapes them. Calls of
  \<^verbatim>\<open>console.log\<close> are not modelled.
\<close>

subsection \<open>JavaScript values\<close>

text \<open>
  A value that is either \<^verbatim>\<open>undefined\<close> (\<open>None\<close>) or a string: identities, room ids and
  the optional string fields of a payload. \<open>truthy\<close> is JavaScript's conversion
  to boolean on such a value: \<^verbatim>\<open>undefined\<close> and the empty string are falsy.
\<close>

type_synonym jstr = "string option"

definition truthy :: "jstr \<Rightarrow> bool" where
  "truthy v = (case v of None \<Rightarrow> False | Some s \<Rightarrow> s \<noteq> [])"

text \<open>The same conversion on a value that is \<^verbatim>\<open>undefined\<close> or a boolean.\<close>

definition truthy_bool :: "bool option \<Rightarrow> bool" where
  "truthy_bool b = (case b of None \<Rightarrow> False | Some v \<Rightarrow> v)"

text \<open>
  The exception of reading a property of \<^verbatim>\<open>undefined\<close>: destructuring an absent
  payload, or \<^verbatim>\<open>message.content\<close> on an absent message.
\<close>

datatype error = TypeError

subsection \<open>Stores\<close>

type_synonym sock = nat

datatype presence = Online | Offline

datatype req_status = Pending | Accepted | Rejected

record friend_request =
  sender_id :: jstr
  receiver_id :: jstr
  status :: req_status

record state =
  activeConnections :: "jstr \<rightharpoonup> sock"
  groupRooms :: "jstr \<rightharpoonup> jstr list"
  userGroups :: "jstr \<rightharpoonup> jstr list"
  userStatus :: "jstr \<rightharpoonup> presence"
  friendRequests :: "friend_request list"

definition init_state :: state where
  "init_state = \<lparr>activeConnections = Map.empty, groupRooms = Map.empty,
     userGroups = Map.empty, userStatus = Map.empty, friendRequests = []\<rparr>"

text \<open>The variables a connection's handlers close over.\<close>

record conn =
  socket :: sock
  userId :: jstr

subsection \<open>Inbound payloads\<close>

text \<open>
  One record per event kind, with the fields the handler destructures; a field that
  the client left out is \<open>None\<close>. The payload itself is optional too: a client may
  emit an event with no argument, and the handler's \<^verbatim>\<open>data\<close> is then \<^verbatim>\<open>undefined\<close>.
\<close>

record create_group_data =
  cg_name :: jstr
  cg_members :: "jstr list option"

record join_room_data =
  jr_room_id :: jstr

record group_message_data =
  gm_group_id :: jstr
  gm_content :: jstr
  gm_type :: jstr
  gm_fileUrl :: jstr

record message =
  content :: jstr
  fileUrl :: jstr

record send_message_data =
  sm_contactId :: jstr
  sm_message :: "message option"
  sm_is_anonymous :: "bool option"

record friend_request_data =
  fr_receiver_id :: jstr
  fr_timestamp :: jstr

record friend_request_response_data =
  frr_sender_id :: jstr
  frr_accepted :: "bool option"
  frr_timestamp :: jstr

datatype event =
    CreateGroup "create_group_data option"
  | JoinRoom "join_room_data option"
  | GroupMessage "group_message_data option"
  | SendMessage "send_message_data option"
  | FriendRequest "friend_request_data option"
  | FriendRequestResponse "friend_request_response_data option"

subsection \<open>Outbound calls\<close>

text \<open>
  \<open>ToSocket k\<close> is \<^verbatim>\<open>k.emit\<close>, \<open>ToRoomExcept r k\<close> is \<^verbatim>\<open>k.to(r).emit\<close> (every socket in
  room \<open>r\<close> but \<open>k\<close>), \<open>ToRoom r\<close> is \<^verbatim>\<open>io.to(r).emit\<close>.
\<close>

datatype target = ToSocket sock | ToRoomExcept jstr sock | ToRoom jstr

datatype outmsg =
    MemberStatus jstr presence
      \<comment> \<open>\<^verbatim>\<open>{userId, status}\<close>\<close>
  | GroupCreated jstr jstr
      \<comment> \<open>\<^verbatim>\<open>{group_id, name}\<close>\<close>
  | GroupMsg string jstr jstr jstr jstr jstr string
      \<comment> \<open>\<^verbatim>\<open>{id, group_id, sender, content, type, fileUrl, timestamp}\<close>\<close>
  | DirectMsg message
      \<comment> \<open>the client's \<^verbatim>\<open>message\<close> object, forwarded as it is\<close>
  | FriendRequestNotice jstr jstr
      \<comment> \<open>\<^verbatim>\<open>{sender, timestamp}\<close>\<close>
  | FriendRequestSent jstr string jstr
      \<comment> \<open>\<^verbatim>\<open>{receiver, status, timestamp}\<close>\<close>
  | FriendResponseNotice jstr "bool option" jstr
      \<comment> \<open>\<^verbatim>\<open>{receiver, accepted, timestamp}\<close>\<close>
  | FriendResponseNotFound jstr string jstr
      \<comment> \<open>\<^verbatim>\<open>{sender, status, timestamp}\<close>\<close>
  | FriendResponseSent jstr "bool option" jstr
      \<comment> \<open>\<^verbatim>\<open>{sender, accepted, timestamp}\<close>\<close>

datatype effect =
    Emit target string outmsg
  | Join sock jstr
      \<comment> \<open>\<^verbatim>\<open>socket.join(room)\<close>\<close>
  | DisconnectSocket sock
      \<comment> \<open>\<^verbatim>\<open>socket.disconnect()\<close>\<close>

type_synonym result = "error + state \<times> effect list"

subsection \<open>Connection\<close>

definition verifyUser :: "jstr \<Rightarrow> error + jstr" where
  "verifyUser token = Inr token"

text \<open>
  The \<^verbatim>\<open>forEach\<close> over \<^verbatim>\<open>userGroups.get(userId)\<close> that tells every group of the user
  its new status; it is the same loop in the connection and the disconnect handler.
\<close>

definition notify_groups :: "conn \<Rightarrow> presence \<Rightarrow> state \<Rightarrow> effect list" where
  "notify_groups c st s =
     (case userGroups s (userId c) of
        None \<Rightarrow> []
      | Some gs \<Rightarrow>
          map (\<lambda>groupId. Emit (ToRoomExcept groupId (socket c)) ''member-status''
                 (MemberStatus (userId c) st)) gs)"

text \<open>
  \<^verbatim>\<open>io.on('connection', ...)\<close> up to the registration of the handlers. The result holds
  the closure of the handlers, or \<open>None\<close> when the \<^verbatim>\<open>catch\<close> branch returned before
  registering them.
\<close>

definition on_connection :: "sock \<Rightarrow> jstr \<Rightarrow> state \<Rightarrow> state \<times> effect list \<times> conn option" where
  "on_connection sk token s =
     (case verifyUser token of
        Inl e \<Rightarrow> (s, [DisconnectSocket sk], None)
      | Inr uid \<Rightarrow>
          (let c = \<lparr>socket = sk, userId = uid\<rparr> in
           if truthy uid then
             (let s1 = s\<lparr>activeConnections := (activeConnections s)(uid \<mapsto> sk)\<rparr>;
                  s2 = s1\<lparr>userStatus := (userStatus s1)(uid \<mapsto> Online)\<rparr>
              in (s2, notify_groups c Online s2, Some c))
           else (s, [], Some c)))"

subsection \<open>Event handlers\<close>

text \<open>
  \<^verbatim>\<open>create_group\<close>. The group id is the value \<^verbatim>\<open>uuidv4()\<close> returned, a parameter here.
  \<^verbatim>\<open>members || [userId]\<close> takes the client's array whenever there is one (an array,
  also the empty one, is truthy). \<^verbatim>\<open>userGroups.get(userId)\<close> is read right after the
  entry was made sure of, so its \<open>None\<close> branch is never taken, here and in
  \<^verbatim>\<open>join_room\<close>.
\<close>

definition on_create_group :: "string \<Rightarrow> conn \<Rightarrow> create_group_data option \<Rightarrow> state \<Rightarrow> result" where
  "on_create_group uuid c data s =
     (case data of
        None \<Rightarrow> Inl TypeError
      | Some d \<Rightarrow>
          if \<not> truthy (cg_name d) then Inr (s, [])
          else
            (let groupId = Some uuid;
                 s1 = s\<lparr>groupRooms := (groupRooms s)(groupId \<mapsto>
                        (case cg_members d of None \<Rightarrow> [userId c] | Some ms \<Rightarrow> ms))\<rparr>;
                 s2 = (if userGroups s1 (userId c) = None
                       then s1\<lparr>userGroups := (userGroups s1)(userId c \<mapsto> [])\<rparr> else s1);
                 s3 = (case userGroups s2 (userId c) of
                         None \<Rightarrow> s2
                       | Some gs \<Rightarrow> s2\<lparr>userGroups := (userGroups s2)(userId c \<mapsto> gs @ [groupId])\<rparr>)
             in Inr (s3, [Join (socket c) groupId,
                          Emit (ToSocket (socket c)) ''group_created''
                            (GroupCreated groupId (cg_name d))])))"

text \<open>\<^verbatim>\<open>join_room\<close>.\<close>

definition on_join_room :: "conn \<Rightarrow> join_room_data option \<Rightarrow> state \<Rightarrow> result" where
  "on_join_room c data s =
     (case data of
        None \<Rightarrow> Inl TypeError
      | Some d \<Rightarrow>
          (let room_id = jr_room_id d in
           if \<not> truthy room_id then Inr (s, [])
           else
             (case groupRooms s room_id of
                None \<Rightarrow> Inr (s, [Join (socket c) room_id])
              | Some members \<Rightarrow>
                  (let s1 = (if userId c \<notin> set members
                             then s\<lparr>groupRooms := (groupRooms s)(room_id \<mapsto> members @ [userId c])\<rparr>
                             else s);
                       s2 = (if userGroups s1 (userId c) = None
                             then s1\<lparr>userGroups := (userGroups s1)(userId c \<mapsto> [])\<rparr> else s1);
                       s3 = (case userGroups s2 (userId c) of
                               None \<Rightarrow> s2
                             | Some userGroupsList \<Rightarrow>
                                 if room_id \<notin> set userGroupsList
                                 then s2\<lparr>userGroups := (userGroups s2)(userId c \<mapsto> userGroupsList @ [room_id])\<rparr>
                                 else s2)
                   in Inr (s3, [Join (socket c) room_id])))))"

text \<open>
  \<^verbatim>\<open>group_message\<close>. The message id is the value of \<^verbatim>\<open>uuidv4()\<close> and the timestamp
  the value of \<^verbatim>\<open>new Date().toISOString()\<close>, both parameters.
\<close>

definition on_group_message :: "string \<Rightarrow> string \<Rightarrow> conn \<Rightarrow> group_message_data option \<Rightarrow> state \<Rightarrow> result" where
  "on_group_message uuid now c data s =
     (case data of
        None \<Rightarrow> Inl TypeError
      | Some d \<Rightarrow>
          if \<not> truthy (gm_group_id d) \<or> (\<not> truthy (gm_content d) \<and> \<not> truthy (gm_fileUrl d))
          then Inr (s, [])
          else Inr (s, [Emit (ToRoom (gm_group_id d)) ''receive-message''
                          (GroupMsg uuid (gm_group_id d) (userId c) (gm_content d)
                             (if truthy (gm_type d) then gm_type d else Some ''text'')
                             (gm_fileUrl d) now)]))"

text \<open>
  \<^verbatim>\<open>send-message\<close>. The guard reads \<^verbatim>\<open>message.content\<close> only when \<^verbatim>\<open>contactId\<close> is
  truthy (\<^verbatim>\<open>||\<close> short-circuits), and that read throws when \<^verbatim>\<open>message\<close> is absent.
\<close>

definition on_send_message :: "conn \<Rightarrow> send_message_data option \<Rightarrow> state \<Rightarrow> result" where
  "on_send_message c data s =
     (case data of
        None \<Rightarrow> Inl TypeError
      | Some d \<Rightarrow>
          if \<not> truthy (sm_contactId d) then Inr (s, [])
          else
            (case sm_message d of
               None \<Rightarrow> Inl TypeError
             | Some m \<Rightarrow>
                 if \<not> truthy (content m) \<and> \<not> truthy (fileUrl m) then Inr (s, [])
                 else
                   (case activeConnections s (sm_contactId d) of
                      None \<Rightarrow> Inr (s, [])
                    | Some recipientSocket \<Rightarrow>
                        Inr (s, [Emit (ToSocket recipientSocket) ''receive-message'' (DirectMsg m)]))))"

text \<open>
  The predicate of \<^verbatim>\<open>friendRequests.find\<close> and \<^verbatim>\<open>findIndex\<close>: a pending record of the
  ordered pair. \<open>findIndex\<close> is \<^verbatim>\<open>Array.prototype.findIndex\<close>, with \<open>None\<close> for \<open>-1\<close>.
\<close>

definition pending_for :: "jstr \<Rightarrow> jstr \<Rightarrow> friend_request \<Rightarrow> bool" where
  "pending_for sd rc req = (sender_id req = sd \<and> receiver_id req = rc \<and> status req = Pending)"

fun findIndex :: "('a \<Rightarrow> bool) \<Rightarrow> 'a list \<Rightarrow> nat option" where
  "findIndex P [] = None"
| "findIndex P (x # xs) =
     (if P x then Some 0 else (case findIndex P xs of None \<Rightarrow> None | Some i \<Rightarrow> Some (Suc i)))"

text \<open>\<^verbatim>\<open>friend_request\<close>.\<close>

definition on_friend_request :: "conn \<Rightarrow> friend_request_data option \<Rightarrow> state \<Rightarrow> result" where
  "on_friend_request c data s =
     (case data of
        None \<Rightarrow> Inl TypeError
      | Some d \<Rightarrow>
          (let receiver = fr_receiver_id d; timestamp = fr_timestamp d in
           if \<not> truthy receiver then Inr (s, [])
           else
             (case find (pending_for (userId c) receiver) (friendRequests s) of
                Some existingRequest \<Rightarrow>
                  Inr (s, [Emit (ToSocket (socket c)) ''friend_request_sent''
                             (FriendRequestSent receiver ''already_sent'' timestamp)])
              | None \<Rightarrow>
                  (let s1 = s\<lparr>friendRequests := friendRequests s @
                              [\<lparr>sender_id = userId c, receiver_id = receiver, status = Pending\<rparr>]\<rparr>
                   in Inr (s1,
                        (case activeConnections s1 receiver of
                           None \<Rightarrow> []
                         | Some receiverSocket \<Rightarrow>
                             [Emit (ToSocket receiverSocket) ''friend_request''
                                (FriendRequestNotice (userId c) timestamp)])
                        @ [Emit (ToSocket (socket c)) ''friend_request_sent''
                             (FriendRequestSent receiver ''sent'' timestamp)])))))"

text \<open>\<^verbatim>\<open>friend_request_response\<close>.\<close>

definition on_friend_request_response ::
    "conn \<Rightarrow> friend_request_response_data option \<Rightarrow> state \<Rightarrow> result" where
  "on_friend_request_response c data s =
     (case data of
        None \<Rightarrow> Inl TypeError
      | Some d \<Rightarrow>
          (let sender = frr_sender_id d; accepted = frr_accepted d; timestamp = frr_timestamp d in
           if \<not> truthy sender then Inr (s, [])
           else
             (case findIndex (pending_for sender (userId c)) (friendRequests s) of
                None \<Rightarrow>
                  Inr (s, [Emit (ToSocket (socket c)) ''friend_request_response_sent''
                             (FriendResponseNotFound sender ''not_found'' timestamp)])
              | Some requestIndex \<Rightarrow>
                  (let s1 = s\<lparr>friendRequests := (friendRequests s)[requestIndex :=
                              (friendRequests s ! requestIndex)
                                \<lparr>status := (if truthy_bool accepted then Accepted else Rejected)\<rparr>]\<rparr>
                   in Inr (s1,
                        (case activeConnections s1 sender of
                           None \<Rightarrow> []
                         | Some senderSocket \<Rightarrow>
                             [Emit (ToSocket senderSocket) ''friend_request_response''
                                (FriendResponseNotice (userId c) accepted timestamp)])
                        @ [Emit (ToSocket (socket c)) ''friend_request_response_sent''
                             (FriendResponseSent sender accepted timestamp)])))))"

text \<open>\<^verbatim>\<open>disconnect\<close>, fired by the transport; it has no payload.\<close>

definition on_disconnect :: "conn \<Rightarrow> state \<Rightarrow> state \<times> effect list" where
  "on_disconnect c s =
     (if truthy (userId c) then
        (let s1 = s\<lparr>activeConnections := (activeConnections s)(userId c := None)\<rparr>;
             s2 = s1\<lparr>userStatus := (userStatus s1)(userId c \<mapsto> Offline)\<rparr>
         in (s2, notify_groups c Offline s2))
      else (s, []))"

subsection \<open>The server\<close>

text \<open>
  The values the environment supplies while an event is handled: the result of
  \<^verbatim>\<open>uuidv4()\<close> and of \<^verbatim>\<open>new Date().toISOString()\<close>.
\<close>

record env =
  uuid :: string
  now :: string

fun handle :: "env \<Rightarrow> conn \<Rightarrow> event \<Rightarrow> state \<Rightarrow> result" where
  "handle e c (CreateGroup data) s = on_create_group (uuid e) c data s"
| "handle e c (JoinRoom data) s = on_join_room c data s"
| "handle e c (GroupMessage data) s = on_group_message (uuid e) (now e) c data s"
| "handle e c (SendMessage data) s = on_send_message c data s"
| "handle e c (FriendRequest data) s = on_friend_request c data s"
| "handle e c (FriendRequestResponse data) s = on_friend_request_response c data s"

text \<open>
  The server is the store and the open sockets with the closure of their handlers.
  Its inputs are a new connection with its handshake token, an event a client emits
  on an open socket, and the transport closing a socket. A socket connects once: a
  connection on a socket that is open, and an event or a close on a socket that is
  not, change nothing. An exception that escapes a handler is the result \<open>Inl\<close>.
\<close>

record server =
  store :: state
  conns :: "sock \<rightharpoonup> conn"

definition init_server :: server where
  "init_server = \<lparr>store = init_state, conns = Map.empty\<rparr>"

datatype input = Connect sock jstr | Recv sock env event | Close sock

fun step :: "input \<Rightarrow> server \<Rightarrow> error + server \<times> effect list" where
  "step (Connect sk token) sv =
     (case conns sv sk of
        Some c \<Rightarrow> Inr (sv, [])
      | None \<Rightarrow>
          (case on_connection sk token (store sv) of
             (s', es, None) \<Rightarrow> Inr (sv\<lparr>store := s'\<rparr>, es)
           | (s', es, Some c) \<Rightarrow> Inr (sv\<lparr>store := s', conns := (conns sv)(sk \<mapsto> c)\<rparr>, es)))"
| "step (Recv sk e ev) sv =
     (case conns sv sk of
        None \<Rightarrow> Inr (sv, [])
      | Some c \<Rightarrow>
          (case handle e c ev (store sv) of
             Inl err \<Rightarrow> Inl err
           | Inr (s', es) \<Rightarrow> Inr (sv\<lparr>store := s'\<rparr>, es)))"
| "step (Close sk) sv =
     (case conns sv sk of
        None \<Rightarrow> Inr (sv, [])
      | Some c \<Rightarrow>
          (case on_disconnect c (store sv) of
             (s', es) \<Rightarrow> Inr (sv\<lparr>store := s', conns := (conns sv)(sk := None)\<rparr>, es)))"

inductive reachable :: "server \<Rightarrow> bool" where
  reach_init: "reachable init_server"
| reach_step: "reachable sv \<Longrightarrow> step i sv = Inr (sv', es) \<Longrightarrow> reachable sv'"

subsection \<open>Observations and invariants\<close>

text \<open>
  The two readers of the membership store: the members a group id maps to in
  \<^verbatim>\<open>groupRooms\<close> and the groups a user maps to in \<^verbatim>\<open>userGroups\<close>, both empty for an
  unknown key.
\<close>

definition membersOf :: "state \<Rightarrow> jstr \<Rightarrow> jstr set" where
  "membersOf s g = (case groupRooms s g of None \<Rightarrow> {} | Some ms \<Rightarrow> set ms)"

definition groupsOf :: "state \<Rightarrow> jstr \<Rightarrow> jstr set" where
  "groupsOf s u = (case userGroups s u of None \<Rightarrow> {} | Some gs \<Rightarrow> set gs)"

text \<open>The forward map and the reverse index agree on every pair.\<close>

definition consistent :: "state \<Rightarrow> bool" where
  "consistent s = (\<forall>u g. (u \<in> membersOf s g) = (g \<in> groupsOf s u))"

text \<open>One half of it: a group in a user's reverse index has that user as a member.\<close>

definition reverse_backed :: "state \<Rightarrow> bool" where
  "reverse_backed s = (\<forall>u g. g \<in> groupsOf s u \<longrightarrow> u \<in> membersOf s g)"

text \<open>A user is \<^verbatim>\<open>'online'\<close> exactly when \<^verbatim>\<open>activeConnections\<close> has an entry for it.\<close>

definition presence_inv :: "state \<Rightarrow> bool" where
  "presence_inv s = (\<forall>u. (userStatus s u = Some Online) = (activeConnections s u \<noteq> None))"

text \<open>The ledger holds at most one pending record for an ordered pair.\<close>

definition uniq_pending :: "friend_request list \<Rightarrow> bool" where
  "uniq_pending frs =
     distinct (map (\<lambda>q. (sender_id q, receiver_id q)) (filter (\<lambda>q. status q = Pending) frs))"

subsection \<open>Malformed events\<close>

text \<open>
  The specification's reading of a malformed event, after the column of required
  fields of its dispatch table: \<^verbatim>\<open>name\<close> for \<^verbatim>\<open>create_group\<close>; \<^verbatim>\<open>room_id\<close> for
  \<^verbatim>\<open>join_room\<close>; \<^verbatim>\<open>group_id\<close> and one of \<^verbatim>\<open>content\<close>, \<^verbatim>\<open>fileUrl\<close> for \<^verbatim>\<open>group_message\<close>;
  \<^verbatim>\<open>contactId\<close> and a message body with one of \<^verbatim>\<open>content\<close>, \<^verbatim>\<open>fileUrl\<close> for
  \<^verbatim>\<open>send-message\<close>; \<^verbatim>\<open>receiver_id\<close> for \<^verbatim>\<open>friend_request\<close>; \<^verbatim>\<open>sender_id\<close> and
  \<^verbatim>\<open>accepted\<close> for \<^verbatim>\<open>friend_request_response\<close>. An event with no payload misses all of
  them.
\<close>

fun spec_missing_required :: "event \<Rightarrow> bool" where
  "spec_missing_required (CreateGroup None) = True"
| "spec_missing_required (CreateGroup (Some d)) = (cg_name d = None)"
| "spec_missing_required (JoinRoom None) = True"
| "spec_missing_required (JoinRoom (Some d)) = (jr_room_id d = None)"
| "spec_missing_required (GroupMessage None) = True"
| "spec_missing_required (GroupMessage (Some d)) =
     (gm_group_id d = None \<or> (gm_content d = None \<and> gm_fileUrl d = None))"
| "spec_missing_required (SendMessage None) = True"
| "spec_missing_required (SendMessage (Some d)) =
     (sm_contactId d = None \<or>
      (case sm_message d of None \<Rightarrow> True | Some m \<Rightarrow> content m = None \<and> fileUrl m = None))"
| "spec_missing_required (FriendRequest None) = True"
| "spec_missing_required (FriendRequest (Some d)) = (fr_receiver_id d = None)"
| "spec_missing_required (FriendRequestResponse None) = True"
| "spec_missing_required (FriendRequestResponse (Some d)) =
     (frr_sender_id d = None \<or> frr_accepted d = None)"

text \<open>
  The events whose payload is there and lacks a field that the handler tests; a field
  holding the empty string counts as lacking, as in the handlers' \<^verbatim>\<open>!field\<close>. The
  message body of \<^verbatim>\<open>send-message\<close> counts only when it is there without \<^verbatim>\<open>content\<close>
  and \<^verbatim>\<open>fileUrl\<close>, and \<^verbatim>\<open>accepted\<close> does not count.
\<close>

fun missing_checked_field :: "event \<Rightarrow> bool" where
  "missing_checked_field (CreateGroup (Some d)) = (\<not> truthy (cg_name d))"
| "missing_checked_field (JoinRoom (Some d)) = (\<not> truthy (jr_room_id d))"
| "missing_checked_field (GroupMessage (Some d)) =
     (\<not> truthy (gm_group_id d) \<or> (\<not> truthy (gm_content d) \<and> \<not> truthy (gm_fileUrl d)))"
| "missing_checked_field (SendMessage (Some d)) =
     (\<not> truthy (sm_contactId d) \<or>
      (case sm_message d of None \<Rightarrow> False
       | Some m \<Rightarrow> \<not> truthy (content m) \<and> \<not> truthy (fileUrl m)))"
| "missing_checked_field (FriendRequest (Some d)) = (\<not> truthy (fr_receiver_id d))"
| "missing_checked_field (FriendRequestResponse (Some d)) = (\<not> truthy (frr_sender_id d))"
| "missing_checked_field _ = False"

subsection \<open>Sample connections and states\<close>

definition ex_alice :: conn where
  "ex_alice = \<lparr>socket = 1, userId = Some ''alice''\<rparr>"

definition ex_bob :: conn where
  "ex_bob = \<lparr>socket = 2, userId = Some ''bob''\<rparr>"

definition ex_env :: env where
  "ex_env = \<lparr>uuid = ''g1'', now = ''t0''\<rparr>"

text \<open>Alice is connected on socket 1 and nothing else has happened.\<close>

definition ex_server :: server where
  "ex_server =
     \<lparr>store = init_state\<lparr>activeConnections := [Some ''alice'' \<mapsto> 1],
                           userStatus := [Some ''alice'' \<mapsto> Online]\<rparr>,
      conns = [1 \<mapsto> ex_alice]\<rparr>"

text \<open>The same server after the transport closed socket 1.\<close>

definition ex_closed :: server where
  "ex_closed =
     \<lparr>store = init_state\<lparr>userStatus := [Some ''alice'' \<mapsto> Offline]\<rparr>,
      conns = Map.empty\<rparr>"

text \<open>Alice and Bob are connected; then the ledger with Alice's request to Bob.\<close>

definition ex_connected :: state where
  "ex_connected =
     init_state\<lparr>activeConnections := [Some ''alice'' \<mapsto> 1, Some ''bob'' \<mapsto> 2],
                userStatus := [Some ''alice'' \<mapsto> Online, Some ''bob'' \<mapsto> Online]\<rparr>"

definition ex_ledger :: "req_status \<Rightarrow> state" where
  "ex_ledger st = ex_connected\<lparr>friendRequests :=
     [\<lparr>sender_id = Some ''alice'', receiver_id = Some ''bob'', status = st\<rparr>]\<rparr>"

text \<open>Group \<open>g1\<close> with the member list given, in the reverse index of Alice alone.\<close>

definition ex_group :: "jstr list \<Rightarrow> state" where
  "ex_group ms =
     init_state\<lparr>groupRooms := [Some ''g1'' \<mapsto> ms],
                userGroups := [Some ''alice'' \<mapsto> [Some ''g1'']]\<rparr>"

text \<open>The same after Bob joined it.\<close>

definition ex_joined :: state where
  "ex_joined =
     init_state\<lparr>groupRooms := [Some ''g1'' \<mapsto> [Some ''alice'', Some ''bob'']],
                userGroups := [Some ''alice'' \<mapsto> [Some ''g1''], Some ''bob'' \<mapsto> [Some ''g1'']]\<rparr>"

section \<open>Helper lemmas\<close>

lemma on_connection_truthy:
  "truthy a \<Longrightarrow> on_connection k a s =
     (s\<lparr>activeConnections := (activeConnections s)(a \<mapsto> k),
        userStatus := (userStatus s)(a \<mapsto> Online)\<rparr>,
      notify_groups \<lparr>socket = k, userId = a\<rparr> Online
        (s\<lparr>activeConnections := (activeConnections s)(a \<mapsto> k),
           userStatus := (userStatus s)(a \<mapsto> Online)\<rparr>),
      Some \<lparr>socket = k, userId = a\<rparr>)"
  by (simp add: on_connection_def verifyUser_def Let_def)

lemma findIndex_None: "(findIndex P xs = None) = (\<forall>x\<in>set xs. \<not> P x)"
  by (induction xs) (auto split: option.splits)

lemma findIndex_Some:
  "findIndex P xs = Some i \<Longrightarrow> i < length xs \<and> P (xs ! i) \<and> (\<forall>j<i. \<not> P (xs ! j))"
proof (induction xs arbitrary: i)
  case Nil
  then show ?case by simp
next
  case (Cons x xs)
  show ?case
  proof (cases "P x")
    case True
    with Cons.prems show ?thesis by simp
  next
    case False
    with Cons.prems obtain k where k: "findIndex P xs = Some k" "i = Suc k"
      by (auto split: option.splits)
    from Cons.IH [OF k(1)] False k(2) show ?thesis
      by (auto simp: less_Suc_eq_0_disj)
  qed
qed

lemma pending_findIndex: "\<exists>q\<in>set xs. P q \<Longrightarrow> \<exists>i. findIndex P xs = Some i"
  by (cases "findIndex P xs") (auto simp: findIndex_None)

lemma create_group_result:
  assumes "truthy nm"
  shows "on_create_group g c (Some \<lparr>cg_name = nm, cg_members = M\<rparr>) s =
     Inr (s\<lparr>groupRooms := (groupRooms s)(Some g \<mapsto> (case M of None \<Rightarrow> [userId c] | Some ms \<Rightarrow> ms)),
            userGroups := (userGroups s)(userId c \<mapsto>
               (case userGroups s (userId c) of None \<Rightarrow> [] | Some gs \<Rightarrow> gs) @ [Some g])\<rparr>,
          [Join (socket c) (Some g),
           Emit (ToSocket (socket c)) ''group_created'' (GroupCreated (Some g) nm)])"
  using assms by (cases "userGroups s (userId c)") (simp_all add: on_create_group_def Let_def)

lemma join_room_result:
  assumes "truthy g" and "groupRooms s g = Some ms"
  shows "on_join_room c (Some \<lparr>jr_room_id = g\<rparr>) s =
     Inr (s\<lparr>groupRooms := (groupRooms s)(g \<mapsto> (if userId c \<in> set ms then ms else ms @ [userId c])),
            userGroups := (userGroups s)(userId c \<mapsto>
               (let gs = (case userGroups s (userId c) of None \<Rightarrow> [] | Some gs \<Rightarrow> gs)
                in if g \<in> set gs then gs else gs @ [g]))\<rparr>,
          [Join (socket c) g])"
proof -
  have a: "s\<lparr>groupRooms := (groupRooms s)(g \<mapsto> ms)\<rparr> = s"
    using assms(2) by (simp add: fun_upd_idem)
  have b: "\<And>gs. userGroups s (userId c) = Some gs \<Longrightarrow>
             s\<lparr>userGroups := (userGroups s)(userId c \<mapsto> gs)\<rparr> = s"
    by (simp add: fun_upd_idem)
  show ?thesis
    using assms a
    by (cases "userGroups s (userId c)")
       (auto simp: on_join_room_def Let_def fun_upd_idem)
qed

lemma response_resolves:
  assumes "truthy sd" and "findIndex (pending_for sd (userId c)) (friendRequests s) = Some i"
  shows "on_friend_request_response c
           (Some \<lparr>frr_sender_id = sd, frr_accepted = a, frr_timestamp = t\<rparr>) s =
         Inr (s\<lparr>friendRequests := (friendRequests s)[i := (friendRequests s ! i)
                   \<lparr>status := (if truthy_bool a then Accepted else Rejected)\<rparr>]\<rparr>,
              (case activeConnections s sd of
                 None \<Rightarrow> []
               | Some k \<Rightarrow> [Emit (ToSocket k) ''friend_request_response''
                              (FriendResponseNotice (userId c) a t)])
              @ [Emit (ToSocket (socket c)) ''friend_request_response_sent''
                   (FriendResponseSent sd a t)])"
  using assms by (simp add: on_friend_request_response_def Let_def)

lemma response_not_found:
  assumes "truthy sd" and "\<forall>q\<in>set (friendRequests s). \<not> pending_for sd (userId c) q"
  shows "on_friend_request_response c
           (Some \<lparr>frr_sender_id = sd, frr_accepted = a, frr_timestamp = t\<rparr>) s =
         Inr (s, [Emit (ToSocket (socket c)) ''friend_request_response_sent''
                    (FriendResponseNotFound sd ''not_found'' t)])"
proof -
  from assms(2) have "findIndex (pending_for sd (userId c)) (friendRequests s) = None"
    by (simp add: findIndex_None)
  with assms(1) show ?thesis by (simp add: on_friend_request_response_def Let_def)
qed

subsection \<open>The membership maps after a handler\<close>

lemma join_room_total:
  "\<exists>s1 es. on_join_room c (Some d) s = Inr (s1, es)"
  by (simp add: on_join_room_def Let_def split: option.splits)

lemma groupsOf_upd:
  "groupsOf (s\<lparr>groupRooms := gr, userGroups := (userGroups s)(v \<mapsto> gs)\<rparr>) u =
     (if u = v then set gs else groupsOf s u)"
  by (simp add: groupsOf_def)

lemma membersOf_upd:
  "membersOf (s\<lparr>groupRooms := (groupRooms s)(h \<mapsto> ms), userGroups := ug\<rparr>) g =
     (if g = h then set ms else membersOf s g)"
  by (simp add: membersOf_def)

lemma join_room_consistent:
  assumes "consistent s" and "on_join_room c (Some d) s = Inr (s1, es)"
  shows "consistent s1"
proof (cases "truthy (jr_room_id d)")
  case False
  with assms show ?thesis by (simp add: on_join_room_def Let_def)
next
  case True
  show ?thesis
  proof (cases "groupRooms s (jr_room_id d)")
    case None
    with True assms show ?thesis by (simp add: on_join_room_def Let_def)
  next
    case (Some ms)
    have d: "d = \<lparr>jr_room_id = jr_room_id d\<rparr>" by simp
    from join_room_result [OF True Some, of c] assms(2) d
    have s1: "s1 = s\<lparr>groupRooms := (groupRooms s)(jr_room_id d \<mapsto>
                 (if userId c \<in> set ms then ms else ms @ [userId c])),
               userGroups := (userGroups s)(userId c \<mapsto>
                 (let gs = (case userGroups s (userId c) of None \<Rightarrow> [] | Some gs \<Rightarrow> gs)
                  in if jr_room_id d \<in> set gs then gs else gs @ [jr_room_id d]))\<rparr>"
      by (metis Inr_inject prod.inject)
    have m: "membersOf s (jr_room_id d) = set ms" using Some by (simp add: membersOf_def)
    have g: "set (case userGroups s (userId c) of None \<Rightarrow> [] | Some gs \<Rightarrow> gs) = groupsOf s (userId c)"
      by (simp add: groupsOf_def split: option.splits)
    show ?thesis
      unfolding consistent_def s1 groupsOf_upd membersOf_upd
      using assms(1) m g by (auto simp: consistent_def Let_def)
  qed
qed

lemma create_group_fields:
  assumes "truthy nm"
  shows "\<exists>s1. on_create_group g c (Some \<lparr>cg_name = nm, cg_members = M\<rparr>) s =
           Inr (s1, [Join (socket c) (Some g),
                     Emit (ToSocket (socket c)) ''group_created'' (GroupCreated (Some g) nm)]) \<and>
         (\<forall>h. membersOf s1 h =
            (if h = Some g then set (case M of None \<Rightarrow> [userId c] | Some ms \<Rightarrow> ms)
             else membersOf s h)) \<and>
         (\<forall>u. groupsOf s1 u =
            (if u = userId c then insert (Some g) (groupsOf s u) else groupsOf s u))"
  unfolding create_group_result [OF assms]
  by (auto simp: groupsOf_upd membersOf_upd groupsOf_def split: option.splits)

lemma create_group_bob_only:
  "on_create_group ''g1'' ex_alice
     (Some \<lparr>cg_name = Some ''team'', cg_members = Some [Some ''bob'']\<rparr>) init_state =
   Inr (ex_group [Some ''bob''],
        [Join 1 (Some ''g1''),
         Emit (ToSocket 1) ''group_created'' (GroupCreated (Some ''g1'') (Some ''team''))])"
  by (simp add: on_create_group_def Let_def truthy_def ex_alice_def ex_group_def init_state_def)

subsection \<open>The store outside the handlers' reach\<close>

lemma handle_frame:
  "handle e c ev s = Inr (s', es) \<Longrightarrow>
     activeConnections s' = activeConnections s \<and> userStatus s' = userStatus s"
  by (cases ev)
     (auto simp: on_create_group_def on_join_room_def on_group_message_def on_send_message_def
        on_friend_request_def on_friend_request_response_def Let_def
        split: option.splits if_splits)

subsection \<open>Presence follows the registry\<close>

lemma on_connection_presence:
  "presence_inv s \<Longrightarrow> on_connection k a s = (s', es, co) \<Longrightarrow> presence_inv s'"
  by (auto simp: presence_inv_def on_connection_def verifyUser_def Let_def split: if_splits)

lemma on_disconnect_presence:
  "presence_inv s \<Longrightarrow> on_disconnect c s = (s', es) \<Longrightarrow> presence_inv s'"
  by (auto simp: presence_inv_def on_disconnect_def Let_def split: if_splits)

lemma step_presence:
  assumes "presence_inv (store sv)" "step i sv = Inr (sv', es)"
  shows "presence_inv (store sv')"
proof (cases i)
  case (Connect k a)
  with assms show ?thesis
    by (auto split: option.splits prod.splits dest: on_connection_presence)
next
  case (Recv k e ev)
  with assms show ?thesis
    by (auto simp: presence_inv_def split: option.splits sum.splits dest!: handle_frame)
next
  case (Close k)
  with assms show ?thesis
    by (auto split: option.splits prod.splits dest: on_disconnect_presence)
qed

lemma reachable_presence: "reachable sv \<Longrightarrow> presence_inv (store sv)"
proof (induction rule: reachable.induct)
  case reach_init
  show ?case by (simp add: presence_inv_def init_server_def init_state_def)
next
  case (reach_step sv i sv' es)
  then show ?case by (blast intro: step_presence)
qed

subsection \<open>At most one pending request for a pair\<close>

lemma resolve_clears_pending:
  "uniq_pending xs \<Longrightarrow> findIndex (pending_for a b) xs = Some i \<Longrightarrow> status y \<noteq> Pending \<Longrightarrow>
     \<forall>q\<in>set (xs[i := y]). \<not> pending_for a b q"
proof (induction xs arbitrary: i)
  case Nil
  then show ?case by simp
next
  case (Cons x xs)
  show ?case
  proof (cases "pending_for a b x")
    case True
    with Cons.prems have "i = 0" by simp
    moreover have "\<forall>q\<in>set xs. \<not> pending_for a b q"
    proof
      fix q assume q: "q \<in> set xs"
      show "\<not> pending_for a b q"
      proof
        assume "pending_for a b q"
        with q True have "(sender_id x, receiver_id x) \<in>
            (\<lambda>q. (sender_id q, receiver_id q)) ` set (filter (\<lambda>q. status q = Pending) xs)"
          by (auto simp: pending_for_def image_iff)
        with True Cons.prems(1) show False
          by (simp add: uniq_pending_def pending_for_def)
      qed
    qed
    ultimately show ?thesis using Cons.prems(3) by (simp add: pending_for_def)
  next
    case False
    with Cons.prems obtain k where k: "findIndex (pending_for a b) xs = Some k" "i = Suc k"
      by (auto split: option.splits)
    from Cons.prems(1) have "uniq_pending xs"
      by (auto simp: uniq_pending_def split: if_splits)
    from Cons.IH [OF this k(1) Cons.prems(3)] False k(2) show ?thesis by simp
  qed
qed

lemma set_filter_update:
  "\<not> P y \<Longrightarrow> set (filter P (xs[i := y])) \<subseteq> set (filter P xs)"
  using set_update_subset_insert [of xs i y] by auto

lemma resolve_keeps_uniq:
  "uniq_pending xs \<Longrightarrow> status y \<noteq> Pending \<Longrightarrow> uniq_pending (xs[i := y])"
proof (induction xs arbitrary: i)
  case Nil
  then show ?case by simp
next
  case (Cons x xs)
  from Cons.prems(1) have tl: "uniq_pending xs"
    by (auto simp: uniq_pending_def split: if_splits)
  show ?case
  proof (cases i)
    case 0
    with tl Cons.prems(2) show ?thesis by (simp add: uniq_pending_def)
  next
    case (Suc k)
    have sub: "set (filter (\<lambda>q. status q = Pending) (xs[k := y]))
                 \<subseteq> set (filter (\<lambda>q. status q = Pending) xs)"
      using Cons.prems(2) by (rule set_filter_update)
    from Cons.IH [OF tl Cons.prems(2), of k] Cons.prems(1) sub Suc show ?thesis
      by (auto simp: uniq_pending_def)
  qed
qed

lemma request_keeps_uniq:
  "uniq_pending xs \<Longrightarrow> \<forall>q\<in>set xs. \<not> pending_for a b q \<Longrightarrow>
     uniq_pending (xs @ [\<lparr>sender_id = a, receiver_id = b, status = Pending\<rparr>])"
  by (auto simp: uniq_pending_def pending_for_def)

lemma handle_uniq:
  "uniq_pending (friendRequests s) \<Longrightarrow> handle e c ev s = Inr (s', es) \<Longrightarrow>
     uniq_pending (friendRequests s')"
proof (cases ev)
  case (FriendRequest data)
  assume "uniq_pending (friendRequests s)" "handle e c ev s = Inr (s', es)"
  with FriendRequest show ?thesis
    by (auto simp: on_friend_request_def Let_def find_None_iff
          split: option.splits if_splits intro!: request_keeps_uniq)
next
  case (FriendRequestResponse data)
  assume "uniq_pending (friendRequests s)" "handle e c ev s = Inr (s', es)"
  with FriendRequestResponse show ?thesis
    by (auto simp: on_friend_request_response_def Let_def
          split: option.splits if_splits intro!: resolve_keeps_uniq)
qed (auto simp: on_create_group_def on_join_room_def on_group_message_def on_send_message_def
        Let_def split: option.splits if_splits)

lemma step_uniq:
  assumes "uniq_pending (friendRequests (store sv))" "step i sv = Inr (sv', es)"
  shows "uniq_pending (friendRequests (store sv'))"
proof (cases i)
  case (Connect k a)
  with assms show ?thesis
    by (auto simp: on_connection_def verifyUser_def Let_def split: option.splits if_splits)
next
  case (Recv k e ev)
  with assms show ?thesis
    by (auto split: option.splits sum.splits dest: handle_uniq)
next
  case (Close k)
  with assms show ?thesis
    by (auto simp: on_disconnect_def Let_def split: option.splits if_splits)
qed

lemma reachable_uniq_pending: "reachable sv \<Longrightarrow> uniq_pending (friendRequests (store sv))"
proof (induction rule: reachable.induct)
  case reach_init
  show ?case by (simp add: uniq_pending_def init_server_def init_state_def)
next
  case (reach_step sv i sv' es)
  then show ?case by (blast intro: step_uniq)
qed

section \<open>Session registry\<close>

text \<open>
  C4: registering an identity twice in succession, on two session handles, leaves the
  second handle as the one entry of the registry for that identity, which the lookup
  returns; both registrations succeed (the handlers are installed and no error branch
  is taken). An identity is a token the connection handler accepts, a non-empty
  string.
\<close>

theorem register_twice_last_wins:
  assumes "truthy a"
  shows "\<exists>s1 es1 s2 es2.
           on_connection k1 a s = (s1, es1, Some \<lparr>socket = k1, userId = a\<rparr>) \<and>
           on_connection k2 a s1 = (s2, es2, Some \<lparr>socket = k2, userId = a\<rparr>) \<and>
           activeConnections s2 a = Some k2 \<and>
           {k. activeConnections s2 a = Some k} = {k2} \<and>
           userStatus s2 a = Some Online \<and>
           (\<forall>u. u \<noteq> a \<longrightarrow> activeConnections s2 u = activeConnections s u)"
  using assms by (auto simp: on_connection_truthy)

theorem register_twice_last_wins_witness:
  "truthy (Some ''alice'') \<and>
   activeConnections
     (fst (on_connection 2 (Some ''alice'') (fst (on_connection 1 (Some ''alice'') init_state))))
     (Some ''alice'') = Some 2"
proof -
  have h: "truthy (Some ''alice'')" by (simp add: truthy_def)
  from register_twice_last_wins [OF h, of 1 init_state 2] h show ?thesis by auto
qed

text \<open>
  C8: presence is derived from the session registry and every operation keeps it so.
  In every reachable state of the server an identity is \<^verbatim>\<open>'online'\<close> exactly when the
  registry has an entry for it, and an identity that is \<^verbatim>\<open>'offline'\<close> has none. The
  connection handler sets the entry and \<^verbatim>\<open>'online'\<close> together (for a truthy token, and
  nothing otherwise); the disconnect handler removes the entry and sets \<^verbatim>\<open>'offline'\<close>
  together (for a truthy identity, and nothing otherwise); no event handler changes
  either map.
\<close>

theorem presence_follows_registry:
  assumes "reachable sv"
  shows "((userStatus (store sv) u = Some Online) = (activeConnections (store sv) u \<noteq> None)) \<and>
         (userStatus (store sv) u = Some Offline \<longrightarrow> activeConnections (store sv) u = None) \<and>
         fst (on_connection k a s) =
           (if truthy a
            then s\<lparr>activeConnections := (activeConnections s)(a \<mapsto> k),
                   userStatus := (userStatus s)(a \<mapsto> Online)\<rparr>
            else s) \<and>
         fst (on_disconnect c s) =
           (if truthy (userId c)
            then s\<lparr>activeConnections := (activeConnections s)(userId c := None),
                   userStatus := (userStatus s)(userId c \<mapsto> Offline)\<rparr>
            else s) \<and>
         (handle e c ev s = Inr (s', es) \<longrightarrow>
            activeConnections s' = activeConnections s \<and> userStatus s' = userStatus s)"
proof -
  from reachable_presence [OF assms]
  have a: "(userStatus (store sv) u = Some Online) = (activeConnections (store sv) u \<noteq> None)"
    by (simp add: presence_inv_def)
  then have b: "userStatus (store sv) u = Some Offline \<longrightarrow> activeConnections (store sv) u = None"
    by (cases "activeConnections (store sv) u") auto
  have r: "fst (on_connection k a s) =
           (if truthy a
            then s\<lparr>activeConnections := (activeConnections s)(a \<mapsto> k),
                   userStatus := (userStatus s)(a \<mapsto> Online)\<rparr>
            else s)"
    by (simp add: on_connection_def verifyUser_def Let_def)
  have d: "fst (on_disconnect c s) =
           (if truthy (userId c)
            then s\<lparr>activeConnections := (activeConnections s)(userId c := None),
                   userStatus := (userStatus s)(userId c \<mapsto> Offline)\<rparr>
            else s)"
    by (simp add: on_disconnect_def Let_def)
  have f: "handle e c ev s = Inr (s', es) \<longrightarrow>
            activeConnections s' = activeConnections s \<and> userStatus s' = userStatus s"
    by (blast dest: handle_frame)
  from a b r d f show ?thesis by blast
qed

theorem presence_follows_registry_witness:
  "reachable ex_server \<and>
   userStatus (store ex_server) (Some ''alice'') = Some Online \<and>
   activeConnections (store ex_server) (Some ''alice'') = Some 1 \<and>
   step (Close 1) ex_server = Inr (ex_closed, []) \<and>
   reachable ex_closed \<and>
   userStatus (store ex_closed) (Some ''alice'') = Some Offline \<and>
   activeConnections (store ex_closed) (Some ''alice'') = None \<and>
   fst (on_connection 1 (Some ''alice'') init_state) = store ex_server \<and>
   fst (on_disconnect ex_alice (store ex_server)) = store ex_closed \<and>
   handle ex_env ex_alice (JoinRoom (Some \<lparr>jr_room_id = Some ''r1''\<rparr>)) (store ex_server) =
     Inr (store ex_server, [Join 1 (Some ''r1'')])"
proof -
  have "step (Connect 1 (Some ''alice'')) init_server = Inr (ex_server, [])"
    by (simp add: init_server_def init_state_def ex_server_def ex_alice_def on_connection_def
          verifyUser_def truthy_def notify_groups_def Let_def)
  then have r: "reachable ex_server"
    by (rule reach_step [OF reach_init])
  have c: "step (Close 1) ex_server = Inr (ex_closed, [])"
    by (simp add: init_state_def ex_server_def ex_closed_def ex_alice_def on_disconnect_def
          truthy_def notify_groups_def Let_def)
  with r have r2: "reachable ex_closed"
    by (rule reach_step)
  have t: "truthy (Some ''alice'')" "truthy (userId ex_alice)"
    by (simp_all add: truthy_def ex_alice_def)
  have j: "handle ex_env ex_alice (JoinRoom (Some \<lparr>jr_room_id = Some ''r1''\<rparr>)) (store ex_server) =
     Inr (store ex_server, [Join 1 (Some ''r1'')])"
    by (simp add: on_join_room_def Let_def truthy_def ex_server_def ex_alice_def init_state_def)
  from presence_follows_registry [OF r, where u = "Some ''alice''" and k = 1
      and a = "Some ''alice''" and s = init_state]
  have p1: "userStatus (store ex_server) (Some ''alice'') = Some Online"
    "fst (on_connection 1 (Some ''alice'') init_state) = store ex_server"
    using t by (simp_all add: ex_server_def init_state_def)
  from presence_follows_registry [OF r2, where u = "Some ''alice''" and c = ex_alice
      and s = "store ex_server"]
  have p2: "activeConnections (store ex_closed) (Some ''alice'') = None"
    "fst (on_disconnect ex_alice (store ex_server)) = store ex_closed"
    using t by (simp_all add: ex_server_def ex_closed_def ex_alice_def init_state_def)
  from r r2 c j p1 p2 show ?thesis
    by (simp add: ex_server_def ex_closed_def)
qed

text \<open>
  C9: an identity connects on a first socket and again on a second one; when the
  transport then closes the first socket, the disconnect handler removes the registry
  entry of the identity, which held the second socket, and sets the status to
  \<^verbatim>\<open>'offline'\<close>, although the second socket is still open.
\<close>

theorem stale_disconnect_evicts_live_session:
  assumes "truthy a" and "k1 \<noteq> k2" and "conns sv k1 = None" and "conns sv k2 = None"
  shows "\<exists>sv1 es1 sv2 es2 sv3 es3.
           step (Connect k1 a) sv = Inr (sv1, es1) \<and>
           step (Connect k2 a) sv1 = Inr (sv2, es2) \<and>
           step (Close k1) sv2 = Inr (sv3, es3) \<and>
           activeConnections (store sv2) a = Some k2 \<and>
           conns sv2 k2 = Some \<lparr>socket = k2, userId = a\<rparr> \<and>
           conns sv3 k2 = Some \<lparr>socket = k2, userId = a\<rparr> \<and>
           activeConnections (store sv3) a = None \<and>
           userStatus (store sv3) a = Some Offline"
  using assms by (auto simp: on_connection_truthy on_disconnect_def Let_def)

theorem stale_disconnect_evicts_live_session_witness:
  "truthy (Some ''alice'') \<and> (1::nat) \<noteq> 2 \<and>
   conns init_server 1 = None \<and> conns init_server 2 = None \<and>
   (\<exists>sv1 es1 sv2 es2 sv3 es3.
      step (Connect 1 (Some ''alice'')) init_server = Inr (sv1, es1) \<and>
      step (Connect 2 (Some ''alice'')) sv1 = Inr (sv2, es2) \<and>
      step (Close 1) sv2 = Inr (sv3, es3) \<and>
      activeConnections (store sv2) (Some ''alice'') = Some 2 \<and>
      conns sv3 2 = Some \<lparr>socket = 2, userId = Some ''alice''\<rparr> \<and>
      activeConnections (store sv3) (Some ''alice'') = None \<and>
      userStatus (store sv3) (Some ''alice'') = Some Offline)"
proof -
  have h: "truthy (Some ''alice'')" "(1::nat) \<noteq> 2"
    "conns init_server 1 = None" "conns init_server 2 = None"
    by (simp_all add: truthy_def init_server_def)
  from stale_disconnect_evicts_live_session [OF h] h show ?thesis by blast
qed

section \<open>Friend request ledger\<close>

text \<open>
  C5: when the ledger has no pending record for the ordered pair (sender, receiver),
  a first \<^verbatim>\<open>friend_request\<close> appends the pending record, notifies the receiver's socket
  if it has one and acknowledges \<^verbatim>\<open>'sent'\<close> to the caller; a second one right after it
  changes nothing and emits one event, the acknowledgment \<^verbatim>\<open>'already_sent'\<close> to the
  caller; the ledger then holds exactly one pending record for the pair.
\<close>

theorem friend_request_twice:
  assumes "truthy r" and "\<forall>q\<in>set (friendRequests s). \<not> pending_for (userId c) r q"
  shows "\<exists>s1.
           on_friend_request c (Some \<lparr>fr_receiver_id = r, fr_timestamp = t1\<rparr>) s =
             Inr (s1,
               (case activeConnections s r of
                  None \<Rightarrow> []
                | Some k \<Rightarrow> [Emit (ToSocket k) ''friend_request''
                               (FriendRequestNotice (userId c) t1)])
               @ [Emit (ToSocket (socket c)) ''friend_request_sent''
                    (FriendRequestSent r ''sent'' t1)]) \<and>
           friendRequests s1 = friendRequests s @
             [\<lparr>sender_id = userId c, receiver_id = r, status = Pending\<rparr>] \<and>
           on_friend_request c (Some \<lparr>fr_receiver_id = r, fr_timestamp = t2\<rparr>) s1 =
             Inr (s1, [Emit (ToSocket (socket c)) ''friend_request_sent''
                         (FriendRequestSent r ''already_sent'' t2)]) \<and>
           length (filter (pending_for (userId c) r) (friendRequests s1)) = 1"
proof -
  let ?new = "\<lparr>sender_id = userId c, receiver_id = r, status = Pending\<rparr>"
  let ?s1 = "s\<lparr>friendRequests := friendRequests s @ [?new]\<rparr>"
  from assms(2) have none: "find (pending_for (userId c) r) (friendRequests s) = None"
    by (simp add: find_None_iff)
  have first: "on_friend_request c (Some \<lparr>fr_receiver_id = r, fr_timestamp = t1\<rparr>) s =
      Inr (?s1,
        (case activeConnections s r of
           None \<Rightarrow> []
         | Some k \<Rightarrow> [Emit (ToSocket k) ''friend_request'' (FriendRequestNotice (userId c) t1)])
        @ [Emit (ToSocket (socket c)) ''friend_request_sent'' (FriendRequestSent r ''sent'' t1)])"
    using assms(1) none by (simp add: on_friend_request_def Let_def)
  have "pending_for (userId c) r ?new" by (simp add: pending_for_def)
  then obtain q where "find (pending_for (userId c) r) (friendRequests ?s1) = Some q"
    by (cases "find (pending_for (userId c) r) (friendRequests ?s1)")
       (auto simp: find_None_iff)
  then have second: "on_friend_request c (Some \<lparr>fr_receiver_id = r, fr_timestamp = t2\<rparr>) ?s1 =
      Inr (?s1, [Emit (ToSocket (socket c)) ''friend_request_sent''
                   (FriendRequestSent r ''already_sent'' t2)])"
    using assms(1) by (simp add: on_friend_request_def Let_def)
  from assms(2) have "filter (pending_for (userId c) r) (friendRequests s) = []"
    by (simp add: filter_empty_conv)
  then have "length (filter (pending_for (userId c) r) (friendRequests ?s1)) = 1"
    by (simp add: pending_for_def)
  with first second show ?thesis by (intro exI [of _ ?s1]) simp
qed

theorem friend_request_twice_witness:
  "truthy (Some ''bob'') \<and> friendRequests ex_connected = [] \<and>
   on_friend_request ex_alice
     (Some \<lparr>fr_receiver_id = Some ''bob'', fr_timestamp = Some ''t1''\<rparr>) ex_connected =
     Inr (ex_ledger Pending,
          [Emit (ToSocket 2) ''friend_request'' (FriendRequestNotice (Some ''alice'') (Some ''t1'')),
           Emit (ToSocket 1) ''friend_request_sent''
             (FriendRequestSent (Some ''bob'') ''sent'' (Some ''t1''))]) \<and>
   on_friend_request ex_alice
     (Some \<lparr>fr_receiver_id = Some ''bob'', fr_timestamp = Some ''t2''\<rparr>) (ex_ledger Pending) =
     Inr (ex_ledger Pending,
          [Emit (ToSocket 1) ''friend_request_sent''
             (FriendRequestSent (Some ''bob'') ''already_sent'' (Some ''t2''))]) \<and>
   length (filter (pending_for (Some ''alice'') (Some ''bob''))
     (friendRequests (ex_ledger Pending))) = 1"
proof -
  have h: "truthy (Some ''bob'')"
    "\<forall>q\<in>set (friendRequests ex_connected). \<not> pending_for (userId ex_alice) (Some ''bob'') q"
    by (simp_all add: truthy_def ex_connected_def init_state_def)
  have e: "on_friend_request ex_alice
     (Some \<lparr>fr_receiver_id = Some ''bob'', fr_timestamp = Some ''t1''\<rparr>) ex_connected =
     Inr (ex_ledger Pending,
          [Emit (ToSocket 2) ''friend_request'' (FriendRequestNotice (Some ''alice'') (Some ''t1'')),
           Emit (ToSocket 1) ''friend_request_sent''
             (FriendRequestSent (Some ''bob'') ''sent'' (Some ''t1''))])"
    by (simp add: on_friend_request_def Let_def truthy_def pending_for_def ex_alice_def
          ex_ledger_def ex_connected_def init_state_def)
  have f: "on_friend_request ex_alice
     (Some \<lparr>fr_receiver_id = Some ''bob'', fr_timestamp = Some ''t2''\<rparr>) (ex_ledger Pending) =
     Inr (ex_ledger Pending,
          [Emit (ToSocket 1) ''friend_request_sent''
             (FriendRequestSent (Some ''bob'') ''already_sent'' (Some ''t2''))])"
    by (simp add: on_friend_request_def Let_def truthy_def pending_for_def ex_alice_def
          ex_ledger_def ex_connected_def init_state_def)
  have g: "friendRequests ex_connected = []"
    "length (filter (pending_for (Some ''alice'') (Some ''bob''))
       (friendRequests (ex_ledger Pending))) = 1"
    by (simp_all add: pending_for_def ex_ledger_def ex_connected_def init_state_def)
  from friend_request_twice [OF h, of "Some ''t1''" "Some ''t2''"] h(1) e f g show ?thesis
    by simp
qed

text \<open>
  C6: resolution is final. When the ledger (with at most one pending record for a
  pair, as in every reachable state) has a pending record from the sender to the
  responder, a first \<^verbatim>\<open>friend_request_response\<close> sets its status to accepted or
  rejected, and a second one for the same pair changes nothing and emits one event,
  \<^verbatim>\<open>'not_found'\<close> to the responder. A response with no matching pending record does
  the same.
\<close>

theorem response_is_final:
  assumes "truthy sd"
  shows "(uniq_pending (friendRequests s) \<and>
          (\<exists>q\<in>set (friendRequests s). pending_for sd (userId c) q) \<longrightarrow>
          (\<exists>i s1. i < length (friendRequests s) \<and>
             pending_for sd (userId c) (friendRequests s ! i) \<and>
             on_friend_request_response c
               (Some \<lparr>frr_sender_id = sd, frr_accepted = a, frr_timestamp = t\<rparr>) s =
               Inr (s1,
                 (case activeConnections s sd of
                    None \<Rightarrow> []
                  | Some k \<Rightarrow> [Emit (ToSocket k) ''friend_request_response''
                                 (FriendResponseNotice (userId c) a t)])
                 @ [Emit (ToSocket (socket c)) ''friend_request_response_sent''
                      (FriendResponseSent sd a t)]) \<and>
             friendRequests s1 = (friendRequests s)[i := (friendRequests s ! i)
               \<lparr>status := (if truthy_bool a then Accepted else Rejected)\<rparr>] \<and>
             on_friend_request_response c
               (Some \<lparr>frr_sender_id = sd, frr_accepted = a2, frr_timestamp = t2\<rparr>) s1 =
               Inr (s1, [Emit (ToSocket (socket c)) ''friend_request_response_sent''
                           (FriendResponseNotFound sd ''not_found'' t2)]))) \<and>
         ((\<forall>q\<in>set (friendRequests s). \<not> pending_for sd (userId c) q) \<longrightarrow>
          on_friend_request_response c
            (Some \<lparr>frr_sender_id = sd, frr_accepted = a, frr_timestamp = t\<rparr>) s =
            Inr (s, [Emit (ToSocket (socket c)) ''friend_request_response_sent''
                       (FriendResponseNotFound sd ''not_found'' t)]))"
proof (intro conjI impI)
  assume h: "uniq_pending (friendRequests s) \<and>
             (\<exists>q\<in>set (friendRequests s). pending_for sd (userId c) q)"
  then obtain i where i: "findIndex (pending_for sd (userId c)) (friendRequests s) = Some i"
    using pending_findIndex [of "friendRequests s" "pending_for sd (userId c)"] by blast
  let ?y = "(friendRequests s ! i)\<lparr>status := (if truthy_bool a then Accepted else Rejected)\<rparr>"
  let ?s1 = "s\<lparr>friendRequests := (friendRequests s)[i := ?y]\<rparr>"
  have y: "status ?y \<noteq> Pending" by simp
  from h i have "\<forall>q\<in>set (friendRequests ?s1). \<not> pending_for sd (userId c) q"
    using resolve_clears_pending [OF _ i y] by simp
  then have second: "on_friend_request_response c
      (Some \<lparr>frr_sender_id = sd, frr_accepted = a2, frr_timestamp = t2\<rparr>) ?s1 =
      Inr (?s1, [Emit (ToSocket (socket c)) ''friend_request_response_sent''
                   (FriendResponseNotFound sd ''not_found'' t2)])"
    by (rule response_not_found [OF assms])
  from findIndex_Some [OF i] response_resolves [OF assms i, of a t] second
  show "\<exists>i s1. i < length (friendRequests s) \<and>
             pending_for sd (userId c) (friendRequests s ! i) \<and>
             on_friend_request_response c
               (Some \<lparr>frr_sender_id = sd, frr_accepted = a, frr_timestamp = t\<rparr>) s =
               Inr (s1,
                 (case activeConnections s sd of
                    None \<Rightarrow> []
                  | Some k \<Rightarrow> [Emit (ToSocket k) ''friend_request_response''
                                 (FriendResponseNotice (userId c) a t)])
                 @ [Emit (ToSocket (socket c)) ''friend_request_response_sent''
                      (FriendResponseSent sd a t)]) \<and>
             friendRequests s1 = (friendRequests s)[i := (friendRequests s ! i)
               \<lparr>status := (if truthy_bool a then Accepted else Rejected)\<rparr>] \<and>
             on_friend_request_response c
               (Some \<lparr>frr_sender_id = sd, frr_accepted = a2, frr_timestamp = t2\<rparr>) s1 =
               Inr (s1, [Emit (ToSocket (socket c)) ''friend_request_response_sent''
                           (FriendResponseNotFound sd ''not_found'' t2)])"
    by (intro exI [of _ i] exI [of _ ?s1]) simp
next
  assume "\<forall>q\<in>set (friendRequests s). \<not> pending_for sd (userId c) q"
  then show "on_friend_request_response c
            (Some \<lparr>frr_sender_id = sd, frr_accepted = a, frr_timestamp = t\<rparr>) s =
            Inr (s, [Emit (ToSocket (socket c)) ''friend_request_response_sent''
                       (FriendResponseNotFound sd ''not_found'' t)])"
    by (rule response_not_found [OF assms])
qed

theorem response_is_final_witness:
  "truthy (Some ''alice'') \<and> uniq_pending (friendRequests (ex_ledger Pending)) \<and>
   pending_for (Some ''alice'') (Some ''bob'') (friendRequests (ex_ledger Pending) ! 0) \<and>
   on_friend_request_response ex_bob
     (Some \<lparr>frr_sender_id = Some ''alice'', frr_accepted = Some True,
             frr_timestamp = Some ''t1''\<rparr>) (ex_ledger Pending) =
     Inr (ex_ledger Accepted,
          [Emit (ToSocket 1) ''friend_request_response''
             (FriendResponseNotice (Some ''bob'') (Some True) (Some ''t1'')),
           Emit (ToSocket 2) ''friend_request_response_sent''
             (FriendResponseSent (Some ''alice'') (Some True) (Some ''t1''))]) \<and>
   on_friend_request_response ex_bob
     (Some \<lparr>frr_sender_id = Some ''alice'', frr_accepted = Some True,
             frr_timestamp = Some ''t2''\<rparr>) (ex_ledger Accepted) =
     Inr (ex_ledger Accepted,
          [Emit (ToSocket 2) ''friend_request_response_sent''
             (FriendResponseNotFound (Some ''alice'') ''not_found'' (Some ''t2''))]) \<and>
   friendRequests ex_connected = [] \<and>
   on_friend_request_response ex_bob
     (Some \<lparr>frr_sender_id = Some ''alice'', frr_accepted = Some True,
             frr_timestamp = Some ''t1''\<rparr>) ex_connected =
     Inr (ex_connected,
          [Emit (ToSocket 2) ''friend_request_response_sent''
             (FriendResponseNotFound (Some ''alice'') ''not_found'' (Some ''t1''))])"
proof -
  have h: "truthy (Some ''alice'')" by (simp add: truthy_def)
  have p: "uniq_pending (friendRequests (ex_ledger Pending))"
    "pending_for (Some ''alice'') (Some ''bob'') (friendRequests (ex_ledger Pending) ! 0)"
    "friendRequests ex_connected = []"
    by (simp_all add: uniq_pending_def pending_for_def ex_ledger_def ex_connected_def
          init_state_def)
  have e: "on_friend_request_response ex_bob
     (Some \<lparr>frr_sender_id = Some ''alice'', frr_accepted = Some True,
             frr_timestamp = Some ''t1''\<rparr>) (ex_ledger Pending) =
     Inr (ex_ledger Accepted,
          [Emit (ToSocket 1) ''friend_request_response''
             (FriendResponseNotice (Some ''bob'') (Some True) (Some ''t1'')),
           Emit (ToSocket 2) ''friend_request_response_sent''
             (FriendResponseSent (Some ''alice'') (Some True) (Some ''t1''))])"
    by (simp add: on_friend_request_response_def Let_def truthy_def truthy_bool_def
          pending_for_def ex_bob_def ex_ledger_def ex_connected_def init_state_def)
  have f: "on_friend_request_response ex_bob
     (Some \<lparr>frr_sender_id = Some ''alice'', frr_accepted = Some True,
             frr_timestamp = Some ''t2''\<rparr>) (ex_ledger Accepted) =
     Inr (ex_ledger Accepted,
          [Emit (ToSocket 2) ''friend_request_response_sent''
             (FriendResponseNotFound (Some ''alice'') ''not_found'' (Some ''t2''))])"
    by (simp add: on_friend_request_response_def Let_def truthy_def
          pending_for_def ex_bob_def ex_ledger_def ex_connected_def init_state_def)
  have g: "on_friend_request_response ex_bob
     (Some \<lparr>frr_sender_id = Some ''alice'', frr_accepted = Some True,
             frr_timestamp = Some ''t1''\<rparr>) ex_connected =
     Inr (ex_connected,
          [Emit (ToSocket 2) ''friend_request_response_sent''
             (FriendResponseNotFound (Some ''alice'') ''not_found'' (Some ''t1''))])"
    by (simp add: on_friend_request_response_def Let_def truthy_def
          pending_for_def ex_bob_def ex_connected_def init_state_def)
  from response_is_final [OF h, of "ex_ledger Pending" ex_bob "Some True" "Some ''t1''"
      "Some True" "Some ''t2''"] h p e f g
  show ?thesis by simp
qed

text \<open>
  C10: \<^verbatim>\<open>friend_request_response\<close> does not check \<^verbatim>\<open>accepted\<close>. For a matching pending
  record, a response whose \<^verbatim>\<open>accepted\<close> is absent or false sets the record to rejected,
  and the notice to the sender's socket (if it has one) and the acknowledgment to the
  responder both carry the \<^verbatim>\<open>accepted\<close> value as it came.
\<close>

theorem response_without_accepted_rejects:
  assumes "truthy sd" and "\<exists>q\<in>set (friendRequests s). pending_for sd (userId c) q"
    and "a = None \<or> a = Some False"
  shows "\<exists>i s1. i < length (friendRequests s) \<and>
           pending_for sd (userId c) (friendRequests s ! i) \<and>
           on_friend_request_response c
             (Some \<lparr>frr_sender_id = sd, frr_accepted = a, frr_timestamp = t\<rparr>) s =
             Inr (s1,
               (case activeConnections s sd of
                  None \<Rightarrow> []
                | Some k \<Rightarrow> [Emit (ToSocket k) ''friend_request_response''
                               (FriendResponseNotice (userId c) a t)])
               @ [Emit (ToSocket (socket c)) ''friend_request_response_sent''
                    (FriendResponseSent sd a t)]) \<and>
           friendRequests s1 =
             (friendRequests s)[i := (friendRequests s ! i)\<lparr>status := Rejected\<rparr>] \<and>
           status (friendRequests s1 ! i) = Rejected"
proof -
  from assms(2) obtain i where i: "findIndex (pending_for sd (userId c)) (friendRequests s) = Some i"
    using pending_findIndex [of "friendRequests s" "pending_for sd (userId c)"] by blast
  from assms(3) have a: "\<not> truthy_bool a" by (auto simp: truthy_bool_def)
  let ?s1 = "s\<lparr>friendRequests := (friendRequests s)[i := (friendRequests s ! i)\<lparr>status := Rejected\<rparr>]\<rparr>"
  from findIndex_Some [OF i] response_resolves [OF assms(1) i, of a t] a
  show ?thesis by (intro exI [of _ i] exI [of _ ?s1]) simp
qed

theorem response_without_accepted_rejects_witness:
  "truthy (Some ''alice'') \<and>
   pending_for (Some ''alice'') (Some ''bob'') (friendRequests (ex_ledger Pending) ! 0) \<and>
   on_friend_request_response ex_bob
     (Some \<lparr>frr_sender_id = Some ''alice'', frr_accepted = None,
             frr_timestamp = Some ''t1''\<rparr>) (ex_ledger Pending) =
     Inr (ex_ledger Rejected,
          [Emit (ToSocket 1) ''friend_request_response''
             (FriendResponseNotice (Some ''bob'') None (Some ''t1'')),
           Emit (ToSocket 2) ''friend_request_response_sent''
             (FriendResponseSent (Some ''alice'') None (Some ''t1''))])"
proof -
  have h: "truthy (Some ''alice'')"
    "\<exists>q\<in>set (friendRequests (ex_ledger Pending)). pending_for (Some ''alice'') (userId ex_bob) q"
    "(None :: bool option) = None \<or> (None :: bool option) = Some False"
    by (simp_all add: truthy_def pending_for_def ex_ledger_def ex_bob_def)
  have e: "on_friend_request_response ex_bob
     (Some \<lparr>frr_sender_id = Some ''alice'', frr_accepted = None,
             frr_timestamp = Some ''t1''\<rparr>) (ex_ledger Pending) =
     Inr (ex_ledger Rejected,
          [Emit (ToSocket 1) ''friend_request_response''
             (FriendResponseNotice (Some ''bob'') None (Some ''t1'')),
           Emit (ToSocket 2) ''friend_request_response_sent''
             (FriendResponseSent (Some ''alice'') None (Some ''t1''))])"
    by (simp add: on_friend_request_response_def Let_def truthy_def truthy_bool_def
          pending_for_def ex_bob_def ex_ledger_def ex_connected_def init_state_def)
  from response_without_accepted_rejects [OF h, of "Some ''t1''"] h(1) e show ?thesis
    by (simp add: pending_for_def ex_ledger_def)
qed

section \<open>Group membership store\<close>

text \<open>
  C1, as amended: \<^verbatim>\<open>join_room\<close> keeps the forward map and the reverse index
  consistent. \<^verbatim>\<open>create_group\<close> with a fresh id writes the reverse index of the caller
  alone: the caller gets the new group and the reverse index of every other identity
  stays as it was. So it keeps the two maps consistent when the member list is omitted
  or names the caller alone; and when the list names the caller among others, every
  group in a reverse index still has that user among its members.
\<close>

theorem membership_maps_after_mutation:
  "(consistent s \<longrightarrow>
      (\<exists>s1 es. on_join_room c (Some d) s = Inr (s1, es) \<and> consistent s1)) \<and>
   (truthy nm \<and> groupRooms s (Some g) = None \<longrightarrow>
      (\<exists>s1 es. on_create_group g c (Some \<lparr>cg_name = nm, cg_members = M\<rparr>) s = Inr (s1, es) \<and>
         Some g \<in> groupsOf s1 (userId c) \<and>
         (\<forall>u. u \<noteq> userId c \<longrightarrow> groupsOf s1 u = groupsOf s u) \<and>
         (consistent s \<and> set (case M of None \<Rightarrow> [userId c] | Some ms \<Rightarrow> ms) = {userId c}
            \<longrightarrow> consistent s1) \<and>
         (reverse_backed s \<and> userId c \<in> set (case M of None \<Rightarrow> [userId c] | Some ms \<Rightarrow> ms)
            \<longrightarrow> reverse_backed s1)))"
proof (intro conjI impI)
  assume "consistent s"
  with join_room_total [of c d s] show
    "\<exists>s1 es. on_join_room c (Some d) s = Inr (s1, es) \<and> consistent s1"
    by (blast intro: join_room_consistent)
next
  let ?ms = "case M of None \<Rightarrow> [userId c] | Some ms \<Rightarrow> ms"
  assume h: "truthy nm \<and> groupRooms s (Some g) = None"
  then have fresh: "membersOf s (Some g) = {}" by (simp add: membersOf_def)
  from h create_group_fields [of nm g c M s] obtain s1 es where
    r: "on_create_group g c (Some \<lparr>cg_name = nm, cg_members = M\<rparr>) s = Inr (s1, es)" and
    m: "\<And>h. membersOf s1 h = (if h = Some g then set ?ms else membersOf s h)" and
    u: "\<And>u. groupsOf s1 u = (if u = userId c then insert (Some g) (groupsOf s u) else groupsOf s u)"
    by blast
  have c1: "consistent s \<and> set ?ms = {userId c} \<longrightarrow> consistent s1"
  proof
    assume a: "consistent s \<and> set ?ms = {userId c}"
    then have "\<And>v. Some g \<notin> groupsOf s v"
      using fresh by (auto simp: consistent_def)
    with a show "consistent s1"
      unfolding consistent_def m u by auto
  qed
  have c2: "reverse_backed s \<and> userId c \<in> set ?ms \<longrightarrow> reverse_backed s1"
  proof
    assume a: "reverse_backed s \<and> userId c \<in> set ?ms"
    then have "\<And>v. Some g \<notin> groupsOf s v"
      using fresh by (auto simp: reverse_backed_def)
    with a show "reverse_backed s1"
      unfolding reverse_backed_def m u by auto
  qed
  from r u c1 c2 show
    "\<exists>s1 es. on_create_group g c (Some \<lparr>cg_name = nm, cg_members = M\<rparr>) s = Inr (s1, es) \<and>
         Some g \<in> groupsOf s1 (userId c) \<and>
         (\<forall>u. u \<noteq> userId c \<longrightarrow> groupsOf s1 u = groupsOf s u) \<and>
         (consistent s \<and> set ?ms = {userId c} \<longrightarrow> consistent s1) \<and>
         (reverse_backed s \<and> userId c \<in> set ?ms \<longrightarrow> reverse_backed s1)"
    by (intro exI [of _ s1] exI [of _ es]) simp
qed

theorem membership_maps_after_mutation_witness:
  "consistent (ex_group [Some ''alice'']) \<and>
   on_join_room ex_bob (Some \<lparr>jr_room_id = Some ''g1''\<rparr>) (ex_group [Some ''alice'']) =
     Inr (ex_joined, [Join 2 (Some ''g1'')]) \<and>
   consistent ex_joined \<and>
   truthy (Some ''team'') \<and> groupRooms init_state (Some ''g1'') = None \<and>
   consistent init_state \<and>
   on_create_group ''g1'' ex_alice (Some \<lparr>cg_name = Some ''team'', cg_members = None\<rparr>)
     init_state =
     Inr (ex_group [Some ''alice''],
          [Join 1 (Some ''g1''),
           Emit (ToSocket 1) ''group_created'' (GroupCreated (Some ''g1'') (Some ''team''))])"
proof -
  have a: "consistent init_state" "truthy (Some ''team'')"
    "groupRooms init_state (Some ''g1'') = None"
    by (simp_all add: consistent_def membersOf_def groupsOf_def init_state_def truthy_def)
  have cr: "on_create_group ''g1'' ex_alice
      (Some \<lparr>cg_name = Some ''team'', cg_members = None\<rparr>) init_state =
     Inr (ex_group [Some ''alice''],
          [Join 1 (Some ''g1''),
           Emit (ToSocket 1) ''group_created'' (GroupCreated (Some ''g1'') (Some ''team''))])"
    by (simp add: on_create_group_def Let_def truthy_def ex_alice_def ex_group_def init_state_def)
  from membership_maps_after_mutation [of init_state ex_alice "\<lparr>jr_room_id = None\<rparr>" "Some ''team''" "''g1''" None]
    a cr
  have b: "consistent (ex_group [Some ''alice''])"
    by (auto simp: ex_alice_def)
  have jr: "on_join_room ex_bob (Some \<lparr>jr_room_id = Some ''g1''\<rparr>) (ex_group [Some ''alice'']) =
     Inr (ex_joined, [Join 2 (Some ''g1'')])"
    by (simp add: on_join_room_def Let_def truthy_def ex_bob_def ex_group_def ex_joined_def
          init_state_def)
  from membership_maps_after_mutation [of "ex_group [Some ''alice'']" ex_bob
      "\<lparr>jr_room_id = Some ''g1''\<rparr>" "Some ''team''" "''g1''" None] b jr
  have "consistent ex_joined" by auto
  with a b cr jr show ?thesis by simp
qed

text \<open>
  The claim as it is written fails: Alice creates a group with the member list
  \<open>[bob]\<close>; Bob is in the member list and the group is not in his reverse index.
\<close>

theorem membership_maps_counterexample:
  "consistent init_state \<and>
   on_create_group ''g1'' ex_alice
     (Some \<lparr>cg_name = Some ''team'', cg_members = Some [Some ''bob'']\<rparr>) init_state =
   Inr (ex_group [Some ''bob''],
        [Join 1 (Some ''g1''),
         Emit (ToSocket 1) ''group_created'' (GroupCreated (Some ''g1'') (Some ''team''))]) \<and>
   Some ''bob'' \<in> membersOf (ex_group [Some ''bob'']) (Some ''g1'') \<and>
   Some ''g1'' \<notin> groupsOf (ex_group [Some ''bob'']) (Some ''bob'') \<and>
   \<not> consistent (ex_group [Some ''bob''])"
proof -
  have a: "consistent init_state"
    by (simp add: consistent_def membersOf_def groupsOf_def init_state_def)
  have b: "Some ''bob'' \<in> membersOf (ex_group [Some ''bob'']) (Some ''g1'')"
    "Some ''g1'' \<notin> groupsOf (ex_group [Some ''bob'']) (Some ''bob'')"
    by (simp_all add: membersOf_def groupsOf_def ex_group_def)
  then have "\<not> consistent (ex_group [Some ''bob''])"
    unfolding consistent_def by blast
  with a b create_group_bob_only show ?thesis by simp
qed

text \<open>
  C2, as amended: a \<^verbatim>\<open>create_group\<close> event with a name, from caller \<open>c\<close> with member
  list \<open>M\<close>, makes a group whose member set holds every identity of \<open>M\<close> and nothing
  outside \<open>M\<close> and \<open>c\<close>, and is \<open>c\<close> alone when the list is omitted; the reverse index
  of \<open>c\<close> holds the new group id, and the reverse index of every other identity is
  unchanged.
\<close>

theorem create_group_membership:
  assumes "truthy nm"
  shows "\<exists>s1. on_create_group g c (Some \<lparr>cg_name = nm, cg_members = M\<rparr>) s =
           Inr (s1, [Join (socket c) (Some g),
                     Emit (ToSocket (socket c)) ''group_created'' (GroupCreated (Some g) nm)]) \<and>
         set (case M of None \<Rightarrow> [] | Some ms \<Rightarrow> ms) \<subseteq> membersOf s1 (Some g) \<and>
         membersOf s1 (Some g) \<subseteq> set (case M of None \<Rightarrow> [] | Some ms \<Rightarrow> ms) \<union> {userId c} \<and>
         (M = None \<longrightarrow> membersOf s1 (Some g) = {userId c}) \<and>
         Some g \<in> groupsOf s1 (userId c) \<and>
         (\<forall>u. u \<noteq> userId c \<longrightarrow> groupsOf s1 u = groupsOf s u)"
proof -
  from create_group_fields [OF assms, of g c M s] obtain s1 where
    r: "on_create_group g c (Some \<lparr>cg_name = nm, cg_members = M\<rparr>) s =
           Inr (s1, [Join (socket c) (Some g),
                     Emit (ToSocket (socket c)) ''group_created'' (GroupCreated (Some g) nm)])" and
    m: "\<And>h. membersOf s1 h =
          (if h = Some g then set (case M of None \<Rightarrow> [userId c] | Some ms \<Rightarrow> ms)
           else membersOf s h)" and
    u: "\<And>u. groupsOf s1 u = (if u = userId c then insert (Some g) (groupsOf s u) else groupsOf s u)"
    by blast
  show ?thesis
    by (rule exI [of _ s1]) (auto simp: r m u split: option.splits)
qed

theorem create_group_membership_witness:
  "truthy (Some ''team'') \<and>
   on_create_group ''g1'' ex_alice
     (Some \<lparr>cg_name = Some ''team'', cg_members = Some [Some ''alice'', Some ''bob'']\<rparr>)
     init_state =
   Inr (ex_group [Some ''alice'', Some ''bob''],
        [Join 1 (Some ''g1''),
         Emit (ToSocket 1) ''group_created'' (GroupCreated (Some ''g1'') (Some ''team''))]) \<and>
   membersOf (ex_group [Some ''alice'', Some ''bob'']) (Some ''g1'') = {Some ''alice'', Some ''bob''} \<and>
   Some ''g1'' \<in> groupsOf (ex_group [Some ''alice'', Some ''bob'']) (Some ''alice'') \<and>
   groupsOf (ex_group [Some ''alice'', Some ''bob'']) (Some ''bob'') = groupsOf init_state (Some ''bob'')"
proof -
  have h: "truthy (Some ''team'')" by (simp add: truthy_def)
  have cr: "on_create_group ''g1'' ex_alice
     (Some \<lparr>cg_name = Some ''team'', cg_members = Some [Some ''alice'', Some ''bob'']\<rparr>)
     init_state =
   Inr (ex_group [Some ''alice'', Some ''bob''],
        [Join 1 (Some ''g1''),
         Emit (ToSocket 1) ''group_created'' (GroupCreated (Some ''g1'') (Some ''team''))])"
    by (simp add: on_create_group_def Let_def truthy_def ex_alice_def ex_group_def init_state_def)
  from create_group_membership [OF h, of "''g1''" ex_alice
      "Some [Some ''alice'', Some ''bob'']" init_state] cr h
  show ?thesis by (auto simp: ex_alice_def)
qed

text \<open>
  The claim as it is written fails on the same event: the member set is \<open>{bob}\<close>, not
  \<open>{bob, alice}\<close>, and Bob's reverse index does not hold the group.
\<close>

theorem create_group_membership_counterexample:
  "on_create_group ''g1'' ex_alice
     (Some \<lparr>cg_name = Some ''team'', cg_members = Some [Some ''bob'']\<rparr>) init_state =
   Inr (ex_group [Some ''bob''],
        [Join 1 (Some ''g1''),
         Emit (ToSocket 1) ''group_created'' (GroupCreated (Some ''g1'') (Some ''team''))]) \<and>
   membersOf (ex_group [Some ''bob'']) (Some ''g1'') = {Some ''bob''} \<and>
   membersOf (ex_group [Some ''bob'']) (Some ''g1'') \<noteq> set [Some ''bob''] \<union> {Some ''alice''} \<and>
   Some ''g1'' \<notin> groupsOf (ex_group [Some ''bob'']) (Some ''bob'')"
  using create_group_bob_only
  by (auto simp: membersOf_def groupsOf_def ex_group_def)

text \<open>
  C7: \<^verbatim>\<open>join_room\<close> is idempotent on a registered group: the first call puts the user
  in the member list and the group in the user's reverse index, each only if it is
  not there yet, and a second call returns the very same store, so neither list gets
  a duplicate.
\<close>

theorem join_room_idempotent:
  assumes "truthy g" and "groupRooms s g = Some ms"
  shows "\<exists>s1. on_join_room c (Some \<lparr>jr_room_id = g\<rparr>) s = Inr (s1, [Join (socket c) g]) \<and>
           on_join_room c (Some \<lparr>jr_room_id = g\<rparr>) s1 = Inr (s1, [Join (socket c) g]) \<and>
           userId c \<in> membersOf s1 g \<and> g \<in> groupsOf s1 (userId c) \<and>
           groupRooms s1 g = Some (if userId c \<in> set ms then ms else ms @ [userId c])"
  using assms
  by (cases "userGroups s (userId c)")
     (auto simp: on_join_room_def Let_def membersOf_def groupsOf_def)

theorem join_room_idempotent_witness:
  "truthy (Some ''g1'') \<and>
   groupRooms (ex_group [Some ''alice'']) (Some ''g1'') = Some [Some ''alice''] \<and>
   on_join_room ex_bob (Some \<lparr>jr_room_id = Some ''g1''\<rparr>) (ex_group [Some ''alice'']) =
     Inr (ex_joined, [Join 2 (Some ''g1'')]) \<and>
   on_join_room ex_bob (Some \<lparr>jr_room_id = Some ''g1''\<rparr>) ex_joined =
     Inr (ex_joined, [Join 2 (Some ''g1'')])"
proof -
  have h: "truthy (Some ''g1'')"
    "groupRooms (ex_group [Some ''alice'']) (Some ''g1'') = Some [Some ''alice'']"
    by (simp_all add: truthy_def ex_group_def)
  have e: "on_join_room ex_bob (Some \<lparr>jr_room_id = Some ''g1''\<rparr>) (ex_group [Some ''alice'']) =
     Inr (ex_joined, [Join 2 (Some ''g1'')])"
    by (simp add: on_join_room_def Let_def truthy_def ex_bob_def ex_group_def ex_joined_def
          init_state_def)
  from join_room_idempotent [OF h, of ex_bob] e h show ?thesis by auto
qed

section \<open>Malformed events\<close>

text \<open>
  C3, as amended: an inbound event whose payload is there and lacks a field its
  handler tests (\<^verbatim>\<open>name\<close>; \<^verbatim>\<open>room_id\<close>; \<^verbatim>\<open>group_id\<close>, or both \<^verbatim>\<open>content\<close> and
  \<^verbatim>\<open>fileUrl\<close>; \<^verbatim>\<open>contactId\<close>, or both \<^verbatim>\<open>content\<close> and \<^verbatim>\<open>fileUrl\<close> of a message body
  that is there; \<^verbatim>\<open>receiver_id\<close>; \<^verbatim>\<open>sender_id\<close>) is dropped: the handler returns
  normally, the store and the open connections are unchanged and nothing is emitted.
\<close>

theorem malformed_event_dropped:
  assumes "missing_checked_field ev"
  shows "handle e c ev s = Inr (s, []) \<and> step (Recv k e ev) sv = Inr (sv, [])"
proof -
  have a: "handle e c ev s = Inr (s, [])" for c s
    using assms
    by (cases ev rule: missing_checked_field.cases)
       (auto simp: on_create_group_def on_join_room_def on_group_message_def
          on_send_message_def on_friend_request_def on_friend_request_response_def Let_def
          split: option.splits)
  then show ?thesis by (simp split: option.splits)
qed

theorem malformed_event_dropped_witness:
  "missing_checked_field (JoinRoom (Some \<lparr>jr_room_id = None\<rparr>)) \<and>
   handle ex_env ex_alice (JoinRoom (Some \<lparr>jr_room_id = None\<rparr>)) ex_connected =
     Inr (ex_connected, []) \<and>
   step (Recv 1 ex_env (JoinRoom (Some \<lparr>jr_room_id = None\<rparr>))) ex_server = Inr (ex_server, [])"
proof -
  have h: "missing_checked_field (JoinRoom (Some \<lparr>jr_room_id = None\<rparr>))"
    by (simp add: truthy_def)
  from malformed_event_dropped [OF h] h show ?thesis by blast
qed

text \<open>
  The claim as it is written fails: a \<^verbatim>\<open>send-message\<close> with a \<^verbatim>\<open>contactId\<close> and no
  message body throws, as does an event with no payload; and a
  \<^verbatim>\<open>friend_request_response\<close> without \<^verbatim>\<open>accepted\<close> is carried out as a rejection.
\<close>

theorem malformed_event_counterexample:
  "spec_missing_required (SendMessage
     (Some \<lparr>sm_contactId = Some ''bob'', sm_message = None, sm_is_anonymous = None\<rparr>)) \<and>
   handle ex_env ex_alice (SendMessage
     (Some \<lparr>sm_contactId = Some ''bob'', sm_message = None, sm_is_anonymous = None\<rparr>))
     ex_connected = Inl TypeError \<and>
   spec_missing_required (FriendRequestResponse
     (Some \<lparr>frr_sender_id = Some ''alice'', frr_accepted = None, frr_timestamp = Some ''t1''\<rparr>)) \<and>
   handle ex_env ex_bob (FriendRequestResponse
     (Some \<lparr>frr_sender_id = Some ''alice'', frr_accepted = None, frr_timestamp = Some ''t1''\<rparr>))
     (ex_ledger Pending) =
     Inr (ex_ledger Rejected,
          [Emit (ToSocket 1) ''friend_request_response''
             (FriendResponseNotice (Some ''bob'') None (Some ''t1'')),
           Emit (ToSocket 2) ''friend_request_response_sent''
             (FriendResponseSent (Some ''alice'') None (Some ''t1''))]) \<and>
   friendRequests (ex_ledger Rejected) \<noteq> friendRequests (ex_ledger Pending) \<and>
   spec_missing_required (JoinRoom None) \<and>
   handle ex_env ex_alice (JoinRoom None) ex_connected = Inl TypeError"
  by (simp add: on_send_message_def on_friend_request_response_def on_join_room_def Let_def
        truthy_def truthy_bool_def pending_for_def ex_alice_def ex_bob_def ex_ledger_def
        ex_connected_def init_state_def)

end
